theory Spec2Isabelle
  imports Complex_Main
begin

section \<open>Data model (types of the map application)\<close>

text \<open>
  JavaScript numbers are modelled as real numbers with exact arithmetic. Record fields
  that occur in several interfaces of the source carry a prefix, because the field names
  of two records in one theory would shadow each other: \<open>cp_\<close> for
  \<open>CalibrationPoint\<close> and \<open>spot_\<close> for \<open>Spot\<close>.
\<close>

record Coord =
  lat :: real
  lng :: real

record PixelCoord =
  x :: real
  y :: real

record CalibrationPoint =
  cp_id :: int
  cp_pixel_x :: real
  cp_pixel_y :: real
  cp_lat :: real
  cp_lng :: real

datatype SpotType = facility | scenery | tent

record Spot =
  spot_id :: string
  spot_name :: string
  spot_desc :: string
  speech_text :: "string option"
  spot_pixel_x :: real
  spot_pixel_y :: real
  has_mission :: bool
  spot_type :: SpotType

record AppData =
  calibration_points :: "CalibrationPoint list"
  spots :: "Spot list"

text \<open>The six coefficients \<open>A\<close> .. \<open>F\<close> returned by \<open>getAffineTransform\<close>.\<close>

record AffineTransform =
  coef_A :: real
  coef_B :: real
  coef_C :: real
  coef_D :: real
  coef_E :: real
  coef_F :: real

section \<open>services/geo.ts\<close>

text \<open>The local constant \<open>det\<close> of \<open>getAffineTransform\<close>.\<close>

definition calib_det :: "CalibrationPoint \<Rightarrow> CalibrationPoint \<Rightarrow> CalibrationPoint \<Rightarrow> real" where
  "calib_det p1 p2 p3 =
     cp_lat p1 * (cp_lng p2 - cp_lng p3) +
     cp_lat p2 * (cp_lng p3 - cp_lng p1) +
     cp_lat p3 * (cp_lng p1 - cp_lng p2)"

text \<open>
  \<open>getAffineTransform\<close>: \<open>null\<close> is \<open>None\<close>. The first equation is the case
  \<open>points.length >= 3\<close> with \<open>points[0]\<close>, \<open>points[1]\<close>, \<open>points[2]\<close>; the second one is
  \<open>points.length < 3\<close>. Every division is by \<open>det\<close> with \<open>1e-9 \<le> |det|\<close>.
\<close>

fun getAffineTransform :: "CalibrationPoint list \<Rightarrow> AffineTransform option" where
  "getAffineTransform (p1 # p2 # p3 # rest) =
     (let det = calib_det p1 p2 p3 in
      if \<bar>det\<bar> < 1 / 10 ^ 9 then None
      else Some \<lparr>
        coef_A = (cp_pixel_x p1 * (cp_lng p2 - cp_lng p3) +
                  cp_pixel_x p2 * (cp_lng p3 - cp_lng p1) +
                  cp_pixel_x p3 * (cp_lng p1 - cp_lng p2)) / det,
        coef_B = (cp_pixel_x p1 * (cp_lat p3 - cp_lat p2) +
                  cp_pixel_x p2 * (cp_lat p1 - cp_lat p3) +
                  cp_pixel_x p3 * (cp_lat p2 - cp_lat p1)) / det,
        coef_C = (cp_pixel_x p1 * (cp_lat p2 * cp_lng p3 - cp_lat p3 * cp_lng p2) +
                  cp_pixel_x p2 * (cp_lat p3 * cp_lng p1 - cp_lat p1 * cp_lng p3) +
                  cp_pixel_x p3 * (cp_lat p1 * cp_lng p2 - cp_lat p2 * cp_lng p1)) / det,
        coef_D = (cp_pixel_y p1 * (cp_lng p2 - cp_lng p3) +
                  cp_pixel_y p2 * (cp_lng p3 - cp_lng p1) +
                  cp_pixel_y p3 * (cp_lng p1 - cp_lng p2)) / det,
        coef_E = (cp_pixel_y p1 * (cp_lat p3 - cp_lat p2) +
                  cp_pixel_y p2 * (cp_lat p1 - cp_lat p3) +
                  cp_pixel_y p3 * (cp_lat p2 - cp_lat p1)) / det,
        coef_F = (cp_pixel_y p1 * (cp_lat p2 * cp_lng p3 - cp_lat p3 * cp_lng p2) +
                  cp_pixel_y p2 * (cp_lat p3 * cp_lng p1 - cp_lat p1 * cp_lng p3) +
                  cp_pixel_y p3 * (cp_lat p1 * cp_lng p2 - cp_lat p2 * cp_lng p1)) / det
      \<rparr>)"
| "getAffineTransform _ = None"

definition latLngToPixel :: "real \<Rightarrow> real \<Rightarrow> AffineTransform option \<Rightarrow> PixelCoord option" where
  "latLngToPixel la lo transform =
     (case transform of
        None \<Rightarrow> None
      | Some t \<Rightarrow> Some \<lparr> x = coef_A t * la + coef_B t * lo + coef_C t,
                        y = coef_D t * la + coef_E t * lo + coef_F t \<rparr>)"

text \<open>
  \<open>Math.atan2\<close> on real numbers (there is no signed zero: \<open>atan2 0 0 = 0\<close>, as
  \<open>Math.atan2(+0, +0)\<close>).
\<close>

definition atan2 :: "real \<Rightarrow> real \<Rightarrow> real" where
  "atan2 b a =
     (if 0 < a then arctan (b / a)
      else if a < 0 then (if 0 \<le> b then arctan (b / a) + pi else arctan (b / a) - pi)
      else if 0 < b then pi / 2
      else if b < 0 then - (pi / 2)
      else 0)"

text \<open>The local constant \<open>a\<close> of \<open>getDistanceMeters\<close>: the haversine intermediate value.\<close>

definition haversine_a :: "Coord \<Rightarrow> Coord \<Rightarrow> real" where
  "haversine_a c1 c2 =
     (let phi1 = lat c1 * pi / 180;
          phi2 = lat c2 * pi / 180;
          dphi = (lat c2 - lat c1) * pi / 180;
          dlam = (lng c2 - lng c1) * pi / 180
      in sin (dphi / 2) * sin (dphi / 2) +
         cos phi1 * cos phi2 * sin (dlam / 2) * sin (dlam / 2))"

definition getDistanceMeters :: "Coord \<Rightarrow> Coord \<Rightarrow> real" where
  "getDistanceMeters c1 c2 =
     (let R = 6371000;
          a = haversine_a c1 c2;
          c = 2 * atan2 (sqrt a) (sqrt (1 - a))
      in R * c)"

section \<open>Numbers that leave the reals\<close>

text \<open>
  The proximity code divides by a pixel distance that can be zero, so its results can be
  \<open>Infinity\<close> or \<open>NaN\<close>. Such values are modelled by \<open>jsnum\<close>: a real number
  or one of the three special values of a JavaScript number. Arithmetic on finite values
  is exact.
\<close>

datatype jsnum = NaN | NInf | Fin real | PInf

text \<open>
  \<open>a / b\<close> for finite \<open>a\<close> and \<open>b\<close>. The divisor at the one place of use is the
  result of \<open>Math.sqrt\<close>, so a zero divisor is \<open>+0\<close>.
\<close>

definition js_div :: "real \<Rightarrow> real \<Rightarrow> jsnum" where
  "js_div a b =
     (if b \<noteq> 0 then Fin (a / b)
      else if 0 < a then PInf
      else if a < 0 then NInf
      else NaN)"

text \<open>\<open>a * m\<close> for a finite \<open>a\<close>.\<close>

definition js_mul :: "real \<Rightarrow> jsnum \<Rightarrow> jsnum" where
  "js_mul a m =
     (case m of
        Fin b \<Rightarrow> Fin (a * b)
      | PInf \<Rightarrow> (if 0 < a then PInf else if a < 0 then NInf else NaN)
      | NInf \<Rightarrow> (if 0 < a then NInf else if a < 0 then PInf else NaN)
      | NaN \<Rightarrow> NaN)"

text \<open>\<open>a < b\<close>: false as soon as one side is \<open>NaN\<close>.\<close>

fun js_lt :: "jsnum \<Rightarrow> jsnum \<Rightarrow> bool" where
  "js_lt NaN _ = False"
| "js_lt _ NaN = False"
| "js_lt (Fin a) (Fin b) = (a < b)"
| "js_lt _ NInf = False"
| "js_lt NInf _ = True"
| "js_lt PInf _ = False"
| "js_lt (Fin a) PInf = True"

text \<open>Truthiness of a value of type \<open>number | null\<close>: \<open>null\<close>, \<open>0\<close> and \<open>NaN\<close> are falsy.\<close>

fun truthy_num :: "jsnum option \<Rightarrow> bool" where
  "truthy_num None = False"
| "truthy_num (Some NaN) = False"
| "truthy_num (Some (Fin r)) = (r \<noteq> 0)"
| "truthy_num (Some _) = True"

text \<open>Truthiness of an optional string: \<open>undefined\<close> and the empty string are falsy.\<close>

fun truthy_str :: "string option \<Rightarrow> bool" where
  "truthy_str None = False"
| "truthy_str (Some s) = (s \<noteq> [])"

text \<open>\<open>Math.sqrt\<close> of a finite value: the square root of a negative number is \<open>NaN\<close>.\<close>

definition js_sqrt :: "real \<Rightarrow> jsnum" where
  "js_sqrt v = (if v < 0 then NaN else Fin (sqrt v))"

text \<open>\<open>Math.atan2\<close> with the special values: \<open>NaN\<close> as soon as one argument is \<open>NaN\<close>.\<close>

fun js_atan2 :: "jsnum \<Rightarrow> jsnum \<Rightarrow> jsnum" where
  "js_atan2 NaN _ = NaN"
| "js_atan2 _ NaN = NaN"
| "js_atan2 (Fin b) (Fin a) = Fin (atan2 b a)"
| "js_atan2 (Fin b) PInf = Fin 0"
| "js_atan2 (Fin b) NInf = Fin (if 0 \<le> b then pi else - pi)"
| "js_atan2 PInf (Fin a) = Fin (pi / 2)"
| "js_atan2 NInf (Fin a) = Fin (- (pi / 2))"
| "js_atan2 PInf PInf = Fin (pi / 4)"
| "js_atan2 PInf NInf = Fin (3 * pi / 4)"
| "js_atan2 NInf PInf = Fin (- (pi / 4))"
| "js_atan2 NInf NInf = Fin (- (3 * pi / 4))"

text \<open>
  The last three lines of \<open>getDistanceMeters\<close> as a function of the value stored in the
  local constant \<open>a\<close>. In floating point that value is the rounded sum of products,
  which can differ from the exact one and leave the interval from 0 to 1; the source passes
  it to \<open>Math.sqrt\<close> as it is.
\<close>

definition getDistanceMeters_tail :: "real \<Rightarrow> jsnum" where
  "getDistanceMeters_tail a =
     (let R = 6371000;
          c = js_mul 2 (js_atan2 (js_sqrt a) (js_sqrt (1 - a)))
      in js_mul R c)"

text \<open>
  The clamp that the specification asks for before the inverse-trig step. The source
  has no such step.
\<close>

definition clamp01 :: "real \<Rightarrow> real" where
  "clamp01 a = max 0 (min 1 a)"

section \<open>App.tsx: state, proximity evaluation, narration, check-in wiring\<close>

definition AUTO_SPEECH_DISTANCE :: real where
  "AUTO_SPEECH_DISTANCE = 20"

text \<open>The pieces of React state that the engine reads and writes.\<close>

record AppState =
  data :: "AppData option"
  selectedSpot :: "Spot option"
  completedMissions :: "string set"
  readSpeeches :: "string set"
  userGeo :: "Coord option"
  userPixel :: "PixelCoord option"
  nearestSpotDist :: "jsnum option"

text \<open>The memoised \<open>transform\<close>, a function of \<open>data\<close>.\<close>

definition transform :: "AppData option \<Rightarrow> AffineTransform option" where
  "transform d =
     (case d of
        None \<Rightarrow> None
      | Some dat \<Rightarrow>
          if length (calibration_points dat) < 3 then None
          else getAffineTransform (calibration_points dat))"

text \<open>The effect that projects the visitor's position into pixel space.\<close>

definition projection_effect :: "AppState \<Rightarrow> AppState" where
  "projection_effect st =
     (case (userGeo st, transform (data st)) of
        (Some g, Some t) \<Rightarrow> st\<lparr>userPixel := latLngToPixel (lat g) (lng g) (Some t)\<rparr>
      | _ \<Rightarrow> st)"

text \<open>\<open>Math.sqrt(dx*dx + dy*dy)\<close> between the visitor's pixel and a spot.\<close>

definition pixelDist :: "PixelCoord \<Rightarrow> Spot \<Rightarrow> real" where
  "pixelDist up spot =
     (let dx = x up - spot_pixel_x spot;
          dy = y up - spot_pixel_y spot
      in sqrt (dx * dx + dy * dy))"

text \<open>
  \<open>metersPerPixel\<close> as the loop body computes it from the first two calibration points.
\<close>

definition metersPerPixel :: "CalibrationPoint \<Rightarrow> CalibrationPoint \<Rightarrow> jsnum" where
  "metersPerPixel p1 p2 =
     (let distMeters = getDistanceMeters \<lparr>lat = cp_lat p1, lng = cp_lng p1\<rparr>
                                         \<lparr>lat = cp_lat p2, lng = cp_lng p2\<rparr>;
          distPixels = sqrt ((cp_pixel_x p1 - cp_pixel_x p2) ^ 2 +
                             (cp_pixel_y p1 - cp_pixel_y p2) ^ 2)
      in js_div distMeters distPixels)"

text \<open>\<open>distM\<close>: the pixel distance times the scale, in meters.\<close>

definition distM :: "PixelCoord \<Rightarrow> CalibrationPoint \<Rightarrow> CalibrationPoint \<Rightarrow> Spot \<Rightarrow> jsnum" where
  "distM u p1 p2 spot = js_mul (pixelDist u spot) (metersPerPixel p1 p2)"

text \<open>
  One round of the \<open>forEach\<close> over \<open>data.spots\<close>; the accumulator is the pair of the
  local variables \<open>minDist\<close> and \<open>closest\<close>. The scale is computed only when there
  are at least two calibration points.
\<close>

definition scan_spot ::
  "PixelCoord option \<Rightarrow> AffineTransform option \<Rightarrow> CalibrationPoint list \<Rightarrow>
   jsnum \<times> Spot option \<Rightarrow> Spot \<Rightarrow> jsnum \<times> Spot option" where
  "scan_spot up tr cps acc spot =
     (case (up, tr) of
        (Some u, Some t) \<Rightarrow>
          (case cps of
             p1 # p2 # rest \<Rightarrow>
               (let dm = distM u p1 p2 spot
                in if js_lt dm (fst acc) then (dm, Some spot) else acc)
           | _ \<Rightarrow> acc)
      | _ \<Rightarrow> acc)"

definition nearest_scan ::
  "PixelCoord option \<Rightarrow> AppData \<Rightarrow> jsnum \<times> Spot option" where
  "nearest_scan up d =
     foldl (scan_spot up (transform (Some d)) (calibration_points d)) (PInf, None) (spots d)"

text \<open>
  The effect "Auto-Speech and Nearest Spot Logic". It returns the new state and the spot
  whose text is handed to \<open>speechSynthesis.speak\<close>, if any.
\<close>

definition proximity_effect :: "AppState \<Rightarrow> AppState \<times> Spot option" where
  "proximity_effect st =
     (case (userGeo st, data st) of
        (Some g, Some d) \<Rightarrow>
          (let (minDist, closest) = nearest_scan (userPixel st) d;
               st1 = st\<lparr>nearestSpotDist := (if minDist = PInf then None else Some minDist)\<rparr>
           in case closest of
                Some s \<Rightarrow>
                  if js_lt minDist (Fin AUTO_SPEECH_DISTANCE) \<and>
                     spot_id s \<notin> readSpeeches st \<and> truthy_str (speech_text s)
                  then (st1\<lparr>readSpeeches := insert (spot_id s) (readSpeeches st1)\<rparr>, Some s)
                  else (st1, None)
              | None \<Rightarrow> (st1, None))
      | _ \<Rightarrow> (st, None))"

text \<open>The \<open>userDistance\<close> prop that \<open>App\<close> hands to \<open>SpotDetailModal\<close>.\<close>

definition userDistance :: "AppState \<Rightarrow> real option" where
  "userDistance st =
     (case selectedSpot st of
        None \<Rightarrow> None
      | Some sel \<Rightarrow>
          if truthy_num (nearestSpotDist st) then
            (case userPixel st of
               None \<Rightarrow> None
             | Some up \<Rightarrow> Some (sqrt ((spot_pixel_x sel - x up) ^ 2 +
                                      (spot_pixel_y sel - y up) ^ 2)))
          else None)"

text \<open>\<open>isNear\<close> of \<open>SpotDetailModal\<close>.\<close>

definition isNear :: "real option \<Rightarrow> bool" where
  "isNear ud = (case ud of None \<Rightarrow> False | Some d \<Rightarrow> d < 30)"

text \<open>
  A session: what the position stream, the projection and the data store deliver before
  each run of the proximity effect is an arbitrary triple; the set \<open>readSpeeches\<close> is
  touched by the effect only. \<open>run_session\<close> returns, per update, the spot narrated.
\<close>

record Update =
  new_userGeo :: "Coord option"
  new_userPixel :: "PixelCoord option"
  new_data :: "AppData option"

definition apply_update :: "Update \<Rightarrow> AppState \<Rightarrow> AppState" where
  "apply_update u st =
     st\<lparr>userGeo := new_userGeo u, userPixel := new_userPixel u, data := new_data u\<rparr>"

fun run_session :: "AppState \<Rightarrow> Update list \<Rightarrow> Spot option list" where
  "run_session st [] = []"
| "run_session st (u # us) =
     (let (st', ev) = proximity_effect (apply_update u st)
      in ev # run_session st' us)"

fun final_state :: "AppState \<Rightarrow> Update list \<Rightarrow> AppState" where
  "final_state st [] = st"
| "final_state st (u # us) = final_state (fst (proximity_effect (apply_update u st))) us"

text \<open>
  The trigger condition of the narration, read off the effect: the spot that an update
  makes due, namely the nearest one when it is nearer than \<open>AUTO_SPEECH_DISTANCE\<close> and
  has a narration text. Whether it is spoken depends on \<open>readSpeeches\<close> as well.
\<close>

definition narration_due :: "Update \<Rightarrow> Spot option" where
  "narration_due u =
     (case (new_userGeo u, new_data u) of
        (Some g, Some d) \<Rightarrow>
          (case nearest_scan (new_userPixel u) d of
             (minDist, Some s) \<Rightarrow>
               if js_lt minDist (Fin AUTO_SPEECH_DISTANCE) \<and> truthy_str (speech_text s)
               then Some s else None
           | (minDist, None) \<Rightarrow> None)
      | _ \<Rightarrow> None)"

section \<open>Sample data\<close>

text \<open>
  Three calibration points on and next to the equator, about 111 meters apart, mapped to
  pixels 50 apart, and a fourth one that the solver never reads.
\<close>

definition sample_p1 :: CalibrationPoint where
  "sample_p1 = \<lparr>cp_id = 1, cp_pixel_x = 0, cp_pixel_y = 0, cp_lat = 0, cp_lng = 0\<rparr>"

definition sample_p2 :: CalibrationPoint where
  "sample_p2 = \<lparr>cp_id = 2, cp_pixel_x = 50, cp_pixel_y = 0, cp_lat = 0, cp_lng = 1 / 1000\<rparr>"

definition sample_p3 :: CalibrationPoint where
  "sample_p3 = \<lparr>cp_id = 3, cp_pixel_x = 0, cp_pixel_y = 50, cp_lat = 1 / 1000, cp_lng = 0\<rparr>"

definition sample_p4 :: CalibrationPoint where
  "sample_p4 = \<lparr>cp_id = 4, cp_pixel_x = 7, cp_pixel_y = 9, cp_lat = 5, cp_lng = 5\<rparr>"

text \<open>The state after the first render: every \<open>useState\<close> at its initial value.\<close>

definition initial_state :: AppState where
  "initial_state = \<lparr>data = None, selectedSpot = None, completedMissions = {}, readSpeeches = {},
     userGeo = None, userPixel = None, nearestSpotDist = None\<rparr>"

definition sample_spot :: "string \<Rightarrow> real \<Rightarrow> real \<Rightarrow> Spot" where
  "sample_spot i px py = \<lparr>spot_id = i, spot_name = ''Camp'', spot_desc = ''A place'',
     speech_text = Some ''Welcome'', spot_pixel_x = px, spot_pixel_y = py,
     has_mission = True, spot_type = scenery\<rparr>"

text \<open>A calibration whose first two points share one pixel.\<close>

definition coincident_p2 :: CalibrationPoint where
  "coincident_p2 = \<lparr>cp_id = 2, cp_pixel_x = 0, cp_pixel_y = 0, cp_lat = 0, cp_lng = 1 / 1000\<rparr>"

definition coincident_data :: AppData where
  "coincident_data = \<lparr>calibration_points = [sample_p1, coincident_p2, sample_p3],
     spots = [sample_spot ''spot_1'' 3 4]\<rparr>"

definition coincident_state :: AppState where
  "coincident_state = initial_state\<lparr>data := Some coincident_data,
     userGeo := Some \<lparr>lat = 0, lng = 0\<rparr>, userPixel := Some \<lparr>x = 0, y = 0\<rparr>\<rparr>"

text \<open>
  A calibration with a scale of exactly one meter per pixel, and three spots at pixel
  distances 10, 5 and 5 from the pixel \<open>(0, 0)\<close>.
\<close>

definition unit_p2 :: CalibrationPoint where
  "unit_p2 = \<lparr>cp_id = 2, cp_pixel_x = 6371 * pi / 180, cp_pixel_y = 0, cp_lat = 0, cp_lng = 1 / 1000\<rparr>"

definition tie_data :: AppData where
  "tie_data = \<lparr>calibration_points = [sample_p1, unit_p2, sample_p3],
     spots = [sample_spot ''spot_1'' 10 0, sample_spot ''spot_2'' 0 5, sample_spot ''spot_3'' 5 0]\<rparr>"

text \<open>The sample calibration with a single spot, and a visitor standing at latitude 0, longitude 0.\<close>

definition sample_calibration :: "CalibrationPoint list" where
  "sample_calibration = [sample_p1, sample_p2, sample_p3]"

definition single_spot_data :: "Spot \<Rightarrow> AppData" where
  "single_spot_data s = \<lparr>calibration_points = sample_calibration, spots = [s]\<rparr>"

definition near_update :: Update where
  "near_update = \<lparr>new_userGeo = Some \<lparr>lat = 0, lng = 0\<rparr>,
     new_userPixel = Some \<lparr>x = 0, y = 0\<rparr>,
     new_data = Some (single_spot_data (sample_spot ''spot_1'' 3 4))\<rparr>"

definition visitor_state :: "Spot \<Rightarrow> AppState" where
  "visitor_state s = initial_state\<lparr>data := Some (single_spot_data s),
     userGeo := Some \<lparr>lat = 0, lng = 0\<rparr>, selectedSpot := Some s\<rparr>"

text \<open>The state once the projection effect and then the proximity effect have run.\<close>

definition settled :: "AppState \<Rightarrow> AppState" where
  "settled st = fst (proximity_effect (projection_effect st))"

section \<open>The affine calibration solver\<close>

text \<open>
  C8. The solver reads the first three points only: on a sequence of three or more
  calibration points it returns what it returns on the first three of them.
\<close>

theorem getAffineTransform_first_three:
  "3 \<le> length ps \<Longrightarrow> getAffineTransform ps = getAffineTransform (take 3 ps)"
  by (cases ps rule: getAffineTransform.cases) simp_all

theorem getAffineTransform_first_three_witness:
  "3 \<le> length [sample_p1, sample_p2, sample_p3, sample_p4] \<and>
   getAffineTransform [sample_p1, sample_p2, sample_p3, sample_p4] =
   getAffineTransform [sample_p1, sample_p2, sample_p3]"
  using getAffineTransform_first_three [of "[sample_p1, sample_p2, sample_p3, sample_p4]"]
  by simp

text \<open>
  C2. The solver returns null exactly on degenerate input: when there are fewer than three
  points, or when the determinant of the first three points' latitudes and longitudes is
  below \<open>1e-9\<close> in absolute value; in every other case it returns a transform.
\<close>

theorem getAffineTransform_null_iff:
  "getAffineTransform ps = None \<longleftrightarrow>
     (length ps < 3 \<or> \<bar>calib_det (ps ! 0) (ps ! 1) (ps ! 2)\<bar> < 1 / 10 ^ 9)"
  by (cases ps rule: getAffineTransform.cases) (simp_all add: Let_def)

lemma cramer_row:
  fixes la1 la2 la3 lo1 lo2 lo3 v1 v2 v3 d :: real
  assumes d: "d = la1 * (lo2 - lo3) + la2 * (lo3 - lo1) + la3 * (lo1 - lo2)" and nz: "d \<noteq> 0"
  defines "na \<equiv> v1 * (lo2 - lo3) + v2 * (lo3 - lo1) + v3 * (lo1 - lo2)"
      and "nb \<equiv> v1 * (la3 - la2) + v2 * (la1 - la3) + v3 * (la2 - la1)"
      and "nc \<equiv> v1 * (la2 * lo3 - la3 * lo2) + v2 * (la3 * lo1 - la1 * lo3) +
                v3 * (la1 * lo2 - la2 * lo1)"
  shows "na / d * la1 + nb / d * lo1 + nc / d = v1"
    and "na / d * la2 + nb / d * lo2 + nc / d = v2"
    and "na / d * la3 + nb / d * lo3 + nc / d = v3"
proof -
  have split: "na / d * u + nb / d * w + nc / d = (na * u + nb * w + nc) / d" for u w
    by (simp add: add_divide_distrib)
  have "na * la1 + nb * lo1 + nc = v1 * d"
    unfolding na_def nb_def nc_def d by (simp add: algebra_simps)
  then show "na / d * la1 + nb / d * lo1 + nc / d = v1"
    unfolding split using nz by simp
  have "na * la2 + nb * lo2 + nc = v2 * d"
    unfolding na_def nb_def nc_def d by (simp add: algebra_simps)
  then show "na / d * la2 + nb / d * lo2 + nc / d = v2"
    unfolding split using nz by simp
  have "na * la3 + nb * lo3 + nc = v3 * d"
    unfolding na_def nb_def nc_def d by (simp add: algebra_simps)
  then show "na / d * la3 + nb / d * lo3 + nc / d = v3"
    unfolding split using nz by simp
qed

lemma round_trip_three:
  assumes t: "getAffineTransform (p1 # p2 # p3 # rest) = Some t"
  shows "latLngToPixel (cp_lat p1) (cp_lng p1) (Some t) = Some \<lparr>x = cp_pixel_x p1, y = cp_pixel_y p1\<rparr>"
    and "latLngToPixel (cp_lat p2) (cp_lng p2) (Some t) = Some \<lparr>x = cp_pixel_x p2, y = cp_pixel_y p2\<rparr>"
    and "latLngToPixel (cp_lat p3) (cp_lng p3) (Some t) = Some \<lparr>x = cp_pixel_x p3, y = cp_pixel_y p3\<rparr>"
proof -
  define d where "d = calib_det p1 p2 p3"
  have nz: "d \<noteq> 0" using t by (auto simp: d_def Let_def split: if_splits)
  have dd: "d = cp_lat p1 * (cp_lng p2 - cp_lng p3) + cp_lat p2 * (cp_lng p3 - cp_lng p1) +
     cp_lat p3 * (cp_lng p1 - cp_lng p2)" by (simp add: d_def calib_det_def)
  have tt: "t = \<lparr>
        coef_A = (cp_pixel_x p1 * (cp_lng p2 - cp_lng p3) +
                  cp_pixel_x p2 * (cp_lng p3 - cp_lng p1) +
                  cp_pixel_x p3 * (cp_lng p1 - cp_lng p2)) / d,
        coef_B = (cp_pixel_x p1 * (cp_lat p3 - cp_lat p2) +
                  cp_pixel_x p2 * (cp_lat p1 - cp_lat p3) +
                  cp_pixel_x p3 * (cp_lat p2 - cp_lat p1)) / d,
        coef_C = (cp_pixel_x p1 * (cp_lat p2 * cp_lng p3 - cp_lat p3 * cp_lng p2) +
                  cp_pixel_x p2 * (cp_lat p3 * cp_lng p1 - cp_lat p1 * cp_lng p3) +
                  cp_pixel_x p3 * (cp_lat p1 * cp_lng p2 - cp_lat p2 * cp_lng p1)) / d,
        coef_D = (cp_pixel_y p1 * (cp_lng p2 - cp_lng p3) +
                  cp_pixel_y p2 * (cp_lng p3 - cp_lng p1) +
                  cp_pixel_y p3 * (cp_lng p1 - cp_lng p2)) / d,
        coef_E = (cp_pixel_y p1 * (cp_lat p3 - cp_lat p2) +
                  cp_pixel_y p2 * (cp_lat p1 - cp_lat p3) +
                  cp_pixel_y p3 * (cp_lat p2 - cp_lat p1)) / d,
        coef_F = (cp_pixel_y p1 * (cp_lat p2 * cp_lng p3 - cp_lat p3 * cp_lng p2) +
                  cp_pixel_y p2 * (cp_lat p3 * cp_lng p1 - cp_lat p1 * cp_lng p3) +
                  cp_pixel_y p3 * (cp_lat p1 * cp_lng p2 - cp_lat p2 * cp_lng p1)) / d\<rparr>"
    using t by (simp add: d_def Let_def split: if_splits)
  note X = cramer_row [OF dd nz, of "cp_pixel_x p1" "cp_pixel_x p2" "cp_pixel_x p3"]
  note Y = cramer_row [OF dd nz, of "cp_pixel_y p1" "cp_pixel_y p2" "cp_pixel_y p3"]
  show "latLngToPixel (cp_lat p1) (cp_lng p1) (Some t) = Some \<lparr>x = cp_pixel_x p1, y = cp_pixel_y p1\<rparr>"
    unfolding latLngToPixel_def tt using X(1) Y(1) by simp
  show "latLngToPixel (cp_lat p2) (cp_lng p2) (Some t) = Some \<lparr>x = cp_pixel_x p2, y = cp_pixel_y p2\<rparr>"
    unfolding latLngToPixel_def tt using X(2) Y(2) by simp
  show "latLngToPixel (cp_lat p3) (cp_lng p3) (Some t) = Some \<lparr>x = cp_pixel_x p3, y = cp_pixel_y p3\<rparr>"
    unfolding latLngToPixel_def tt using X(3) Y(3) by simp
qed

text \<open>
  C1. Round trip of the calibration: when the first three points are not collinear for the
  solver (the determinant is at least \<open>1e-9\<close> in absolute value, so the transform is not
  null), projecting the geographic position of each of the three points through the solved
  transform gives back that point's stored pixel position, exactly over the reals.
\<close>

theorem calibration_round_trip:
  assumes "3 \<le> length ps"
    and "1 / 10 ^ 9 \<le> \<bar>calib_det (ps ! 0) (ps ! 1) (ps ! 2)\<bar>"
    and "i < 3"
  shows "latLngToPixel (cp_lat (ps ! i)) (cp_lng (ps ! i)) (getAffineTransform ps) =
         Some \<lparr>x = cp_pixel_x (ps ! i), y = cp_pixel_y (ps ! i)\<rparr>"
proof -
  obtain p1 p2 p3 rest where ps: "ps = p1 # p2 # p3 # rest"
    using assms(1) by (cases ps rule: getAffineTransform.cases) simp_all
  from assms(2) obtain t where t: "getAffineTransform (p1 # p2 # p3 # rest) = Some t"
    by (auto simp: ps Let_def)
  from \<open>i < 3\<close> consider "i = 0" | "i = 1" | "i = 2" by linarith
  then show ?thesis
    using round_trip_three [OF t] by cases (simp_all add: ps t del: getAffineTransform.simps)
qed

theorem calibration_round_trip_witness:
  "3 \<le> length [sample_p1, sample_p2, sample_p3] \<and>
   1 / 10 ^ 9 \<le> \<bar>calib_det sample_p1 sample_p2 sample_p3\<bar> \<and>
   (1::nat) < 3 \<and>
   latLngToPixel 0 (1 / 1000) (getAffineTransform [sample_p1, sample_p2, sample_p3]) =
   Some \<lparr>x = 50, y = 0\<rparr>"
  using calibration_round_trip [of "[sample_p1, sample_p2, sample_p3]" 1]
  by (simp add: calib_det_def sample_p1_def sample_p2_def sample_p3_def)

section \<open>Great-circle distance\<close>

text \<open>
  C9. The distance of a coordinate to itself is zero, and the distance is symmetric in its
  two arguments.
\<close>

theorem getDistanceMeters_zero_symmetric:
  "getDistanceMeters a a = 0 \<and> getDistanceMeters a b = getDistanceMeters b a"
proof -
  have "haversine_a a a = 0" by (simp add: haversine_a_def)
  then have 1: "getDistanceMeters a a = 0" by (simp add: getDistanceMeters_def atan2_def)
  have s: "sin (((lat b - lat a) * pi / 180) / 2) = - sin (((lat a - lat b) * pi / 180) / 2)"
    by (metis (no_types) sin_minus minus_diff_eq minus_mult_left minus_divide_left)
  have s2: "sin (((lng b - lng a) * pi / 180) / 2) = - sin (((lng a - lng b) * pi / 180) / 2)"
    by (metis (no_types) sin_minus minus_diff_eq minus_mult_left minus_divide_left)
  have "haversine_a a b = haversine_a b a"
    unfolding haversine_a_def Let_def s s2 by (simp add: mult.commute)
  then have 2: "getDistanceMeters a b = getDistanceMeters b a" by (simp add: getDistanceMeters_def)
  show ?thesis using 1 2 by simp
qed

text \<open>
  Over the reals the haversine intermediate value is a convex combination of two squares,
  so it lies between 0 and 1, and the distance is never negative.
\<close>

lemma cos_prod_half:
  fixes p q :: real
  shows "cos p * cos q = (cos ((p + q) / 2))\<^sup>2 - (sin ((q - p) / 2))\<^sup>2"
proof -
  define u where "u = (q - p) / 2"
  define v where "v = (p + q) / 2"
  have p: "p = v - u" and q: "q = v + u" by (simp_all add: u_def v_def field_simps)
  have sq: "(a + b) * (a - b) = a\<^sup>2 - b\<^sup>2" for a b :: real
    by (simp add: power2_eq_square algebra_simps)
  have "cos (v - u) * cos (v + u) = (cos v * cos u)\<^sup>2 - (sin v * sin u)\<^sup>2"
    unfolding cos_add cos_diff by (rule sq)
  also have "\<dots> = (cos v)\<^sup>2 * (1 - (sin u)\<^sup>2) - (1 - (cos v)\<^sup>2) * (sin u)\<^sup>2"
    unfolding power_mult_distrib cos_squared_eq [of u] sin_squared_eq [of v] ..
  also have "\<dots> = (cos v)\<^sup>2 - (sin u)\<^sup>2" by (simp add: algebra_simps)
  finally show ?thesis unfolding p q by (simp add: u_def v_def)
qed

lemma haversine_a_convex:
  "haversine_a c1 c2 =
     (1 - (sin ((lng c2 - lng c1) * pi / 180 / 2))\<^sup>2) * (sin ((lat c2 - lat c1) * pi / 180 / 2))\<^sup>2 +
     (sin ((lng c2 - lng c1) * pi / 180 / 2))\<^sup>2 * (cos ((lat c1 + lat c2) * pi / 180 / 2))\<^sup>2"
proof -
  have e1: "(lat c1 * pi / 180 + lat c2 * pi / 180) / 2 = (lat c1 + lat c2) * pi / 180 / 2"
    by (simp add: field_simps)
  have e2: "(lat c2 * pi / 180 - lat c1 * pi / 180) / 2 = (lat c2 - lat c1) * pi / 180 / 2"
    by (simp add: field_simps)
  have cp: "cos (lat c1 * pi / 180) * cos (lat c2 * pi / 180) =
      (cos ((lat c1 + lat c2) * pi / 180 / 2))\<^sup>2 - (sin ((lat c2 - lat c1) * pi / 180 / 2))\<^sup>2"
    using cos_prod_half [of "lat c1 * pi / 180" "lat c2 * pi / 180"] unfolding e1 e2 .
  show ?thesis
    unfolding haversine_a_def Let_def cp by (simp add: power2_eq_square algebra_simps)
qed

lemma haversine_a_range: "0 \<le> haversine_a c1 c2 \<and> haversine_a c1 c2 \<le> 1"
proof -
  define s where "s = (sin ((lng c2 - lng c1) * pi / 180 / 2))\<^sup>2"
  define p where "p = (sin ((lat c2 - lat c1) * pi / 180 / 2))\<^sup>2"
  define q where "q = (cos ((lat c1 + lat c2) * pi / 180 / 2))\<^sup>2"
  have s: "0 \<le> s" "s \<le> 1" by (simp_all add: s_def abs_square_le_1)
  have p: "0 \<le> p" "p \<le> 1" by (simp_all add: p_def abs_square_le_1)
  have q: "0 \<le> q" "q \<le> 1" by (simp_all add: q_def abs_square_le_1)
  have a: "haversine_a c1 c2 = (1 - s) * p + s * q"
    unfolding s_def p_def q_def by (rule haversine_a_convex)
  have lo: "0 \<le> (1 - s) * p + s * q" using s p q by simp
  have "(1 - s) * p \<le> (1 - s) * 1" using s p by (intro mult_left_mono) simp_all
  moreover have "s * q \<le> s * 1" using s q by (intro mult_left_mono) simp_all
  ultimately have hi: "(1 - s) * p + s * q \<le> 1" by simp
  show ?thesis using lo hi a by simp
qed

lemma atan2_nonneg: "0 \<le> b \<Longrightarrow> 0 \<le> a \<Longrightarrow> 0 \<le> atan2 b a"
  by (simp add: atan2_def zero_le_arctan_iff)

lemma getDistanceMeters_nonneg: "0 \<le> getDistanceMeters c1 c2"
proof -
  have "0 \<le> atan2 (sqrt (haversine_a c1 c2)) (sqrt (1 - haversine_a c1 c2))"
    using haversine_a_range [of c1 c2] by (intro atan2_nonneg) simp_all
  then show ?thesis by (simp add: getDistanceMeters_def Let_def)
qed

lemma getDistanceMeters_equator:
  assumes "0 \<le> l" "l < 180"
  shows "getDistanceMeters \<lparr>lat = 0, lng = 0\<rparr> \<lparr>lat = 0, lng = l\<rparr> = 6371000 * (l * pi / 180)"
proof -
  define h where "h = l * pi / 180 / 2"
  have h: "0 \<le> h" "h < pi / 2" using assms by (simp_all add: h_def)
  have a: "haversine_a \<lparr>lat = 0, lng = 0\<rparr> \<lparr>lat = 0, lng = l\<rparr> = (sin h)\<^sup>2"
    by (simp add: haversine_a_def h_def power2_eq_square)
  have sh: "0 \<le> sin h" using h by (intro sin_ge_zero) simp_all
  have ch: "0 < cos h" using h by (intro cos_gt_zero_pi) simp_all
  have s1: "sqrt ((sin h)\<^sup>2) = sin h" using sh by simp
  have "1 - (sin h)\<^sup>2 = (cos h)\<^sup>2" by (simp add: cos_squared_eq)
  then have s2: "sqrt (1 - (sin h)\<^sup>2) = cos h" using ch by simp
  have "atan2 (sin h) (cos h) = arctan (tan h)" using ch by (simp add: atan2_def tan_def)
  also have "\<dots> = h" using h by (intro arctan_tan) simp_all
  finally have "atan2 (sin h) (cos h) = h" .
  then show ?thesis
    unfolding getDistanceMeters_def Let_def a s1 s2 by (simp add: h_def mult.commute)
qed

text \<open>
  On an intermediate value between 0 and 1 the last lines of \<open>getDistanceMeters\<close>
  compute a number, the one of the real-valued model; in particular on the exact
  intermediate value of any two coordinates, and on any clamped value.
\<close>

lemma getDistanceMeters_tail_in_range:
  "0 \<le> a \<Longrightarrow> a \<le> 1 \<Longrightarrow>
     getDistanceMeters_tail a = Fin (6371000 * (2 * atan2 (sqrt a) (sqrt (1 - a))))"
  by (simp add: getDistanceMeters_tail_def js_sqrt_def js_mul_def)

lemma getDistanceMeters_tail_exact:
  "getDistanceMeters_tail (haversine_a c1 c2) = Fin (getDistanceMeters c1 c2)"
  using haversine_a_range [of c1 c2]
  by (simp add: getDistanceMeters_tail_in_range getDistanceMeters_def Let_def)

lemma getDistanceMeters_tail_clamped: "getDistanceMeters_tail (clamp01 a) \<noteq> NaN"
proof -
  have "0 \<le> clamp01 a" "clamp01 a \<le> 1" by (simp_all add: clamp01_def)
  then show ?thesis by (simp add: getDistanceMeters_tail_in_range)
qed

text \<open>
  C4. The distance is said never to be \<open>NaN\<close>, because the haversine intermediate
  value is clamped to the interval from 0 to 1 before the square roots. The source does
  not clamp: as soon as the stored intermediate value exceeds 1 (or is negative), one of
  the two square roots is taken of a negative number and the result is \<open>NaN\<close>, where
  the clamped value gives a number. The witness is the value \<open>1 + 2^-52\<close>, the
  double next above 1, which the rounded sum takes for the nearly antipodal coordinates
  (0.74, 2.26) and (-0.74, -177.74).
\<close>

theorem getDistanceMeters_overshoot_NaN:
  "1 < a \<or> a < 0 \<Longrightarrow>
     getDistanceMeters_tail a = NaN \<and> getDistanceMeters_tail (clamp01 a) \<noteq> NaN"
  using getDistanceMeters_tail_clamped [of a]
  by (auto simp: getDistanceMeters_tail_def js_sqrt_def js_mul_def)

theorem getDistanceMeters_overshoot_NaN_witness:
  "(1::real) < 1 + 1 / 2 ^ 52 \<and>
   getDistanceMeters_tail (1 + 1 / 2 ^ 52) = NaN \<and>
   clamp01 (1 + 1 / 2 ^ 52) = 1 \<and>
   getDistanceMeters_tail (clamp01 (1 + 1 / 2 ^ 52)) = Fin (6371000 * pi)"
proof -
  have h: "(1::real) < 1 + 1 / 2 ^ 52" by simp
  have c: "clamp01 (1 + 1 / 2 ^ 52) = 1" by (simp add: clamp01_def)
  have t: "getDistanceMeters_tail 1 = Fin (6371000 * pi)"
    by (simp add: getDistanceMeters_tail_in_range atan2_def)
  from getDistanceMeters_overshoot_NaN [OF disjI1 [OF h]] h c t show ?thesis by simp
qed

section \<open>Proximity evaluation\<close>

lemma pixelDist_nonneg: "0 \<le> pixelDist u s"
  by (simp add: pixelDist_def Let_def)

lemma metersPerPixel_degenerate:
  assumes "cp_pixel_x p1 = cp_pixel_x p2" and "cp_pixel_y p1 = cp_pixel_y p2"
  shows "metersPerPixel p1 p2 = PInf \<or> metersPerPixel p1 p2 = NaN"
  using assms getDistanceMeters_nonneg [of "\<lparr>lat = cp_lat p1, lng = cp_lng p1\<rparr>" "\<lparr>lat = cp_lat p2, lng = cp_lng p2\<rparr>"]
  by (auto simp: metersPerPixel_def js_div_def Let_def)

lemma distM_degenerate:
  assumes "cp_pixel_x p1 = cp_pixel_x p2" and "cp_pixel_y p1 = cp_pixel_y p2"
  shows "\<not> js_lt (distM u p1 p2 s) PInf"
  using metersPerPixel_degenerate [OF assms] pixelDist_nonneg [of u s]
  by (auto simp: distM_def js_mul_def)

lemma scan_spot_degenerate:
  assumes "length cps < 2 \<or>
           (cp_pixel_x (cps ! 0) = cp_pixel_x (cps ! 1) \<and> cp_pixel_y (cps ! 0) = cp_pixel_y (cps ! 1))"
  shows "scan_spot up tr cps (PInf, None) s = (PInf, None)"
proof (cases cps)
  case Nil
  then show ?thesis by (simp add: scan_spot_def split: option.splits)
next
  case (Cons p1 ps)
  show ?thesis
  proof (cases ps)
    case Nil
    then show ?thesis using Cons by (simp add: scan_spot_def split: option.splits)
  next
    case (Cons p2 rest)
    with \<open>cps = p1 # ps\<close> assms
    have "cp_pixel_x p1 = cp_pixel_x p2" and "cp_pixel_y p1 = cp_pixel_y p2" by simp_all
    from distM_degenerate [OF this] show ?thesis
      using Cons \<open>cps = p1 # ps\<close> by (simp add: scan_spot_def Let_def split: option.splits)
  qed
qed

lemma foldl_scan_degenerate:
  assumes "length cps < 2 \<or>
           (cp_pixel_x (cps ! 0) = cp_pixel_x (cps ! 1) \<and> cp_pixel_y (cps ! 0) = cp_pixel_y (cps ! 1))"
  shows "foldl (scan_spot up tr cps) (PInf, None) xs = (PInf, None)"
  by (induction xs) (simp_all add: scan_spot_degenerate [OF assms])

text \<open>
  C5. Degenerate scale: when the first two calibration points share one pixel, or when
  there are fewer than two calibration points, a run of the proximity evaluation finds no
  nearest point: the scan ends with \<open>minDist = Infinity\<close> and \<open>closest = null\<close>, the
  nearest distance is set to null, nothing is narrated, and no error is raised.
\<close>

theorem degenerate_scale_no_nearest:
  assumes d: "data st = Some d" and g: "userGeo st = Some g"
    and deg: "length (calibration_points d) < 2 \<or>
         (cp_pixel_x (calibration_points d ! 0) = cp_pixel_x (calibration_points d ! 1) \<and>
          cp_pixel_y (calibration_points d ! 0) = cp_pixel_y (calibration_points d ! 1))"
  shows "nearest_scan (userPixel st) d = (PInf, None) \<and>
         nearestSpotDist (fst (proximity_effect st)) = None \<and>
         snd (proximity_effect st) = None \<and>
         readSpeeches (fst (proximity_effect st)) = readSpeeches st"
proof -
  have n: "nearest_scan (userPixel st) d = (PInf, None)"
    unfolding nearest_scan_def by (rule foldl_scan_degenerate [OF deg])
  show ?thesis using n by (simp add: proximity_effect_def d g)
qed

theorem degenerate_scale_no_nearest_witness:
  "data coincident_state = Some coincident_data \<and>
   userGeo coincident_state = Some \<lparr>lat = 0, lng = 0\<rparr> \<and>
   cp_pixel_x (calibration_points coincident_data ! 0) = cp_pixel_x (calibration_points coincident_data ! 1) \<and>
   cp_pixel_y (calibration_points coincident_data ! 0) = cp_pixel_y (calibration_points coincident_data ! 1) \<and>
   transform (Some coincident_data) \<noteq> None \<and>
   nearest_scan (userPixel coincident_state) coincident_data = (PInf, None) \<and>
   nearestSpotDist (fst (proximity_effect coincident_state)) = None \<and>
   snd (proximity_effect coincident_state) = None"
proof -
  have h1: "data coincident_state = Some coincident_data"
    and h2: "userGeo coincident_state = Some \<lparr>lat = 0, lng = 0\<rparr>"
    by (simp_all add: coincident_state_def initial_state_def)
  have h3: "cp_pixel_x (calibration_points coincident_data ! 0) = cp_pixel_x (calibration_points coincident_data ! 1) \<and>
   cp_pixel_y (calibration_points coincident_data ! 0) = cp_pixel_y (calibration_points coincident_data ! 1)"
    by (simp add: coincident_data_def sample_p1_def coincident_p2_def)
  have h4: "transform (Some coincident_data) \<noteq> None"
    by (simp add: transform_def coincident_data_def calib_det_def sample_p1_def coincident_p2_def sample_p3_def)
  from degenerate_scale_no_nearest [OF h1 h2 disjI2 [OF h3]] h1 h2 h3 h4 show ?thesis by simp
qed

lemma scan_spot_fin:
  assumes "distM u p1 p2 s = Fin r"
  shows "scan_spot (Some u) (Some t) (p1 # p2 # rest) acc s =
         (if js_lt (Fin r) (fst acc) then (Fin r, Some s) else acc)"
  using assms by (simp add: scan_spot_def)

lemma foldl_scan_first_min:
  assumes fin: "\<And>s. distM u p1 p2 s = Fin (f s)"
  shows "xs \<noteq> [] \<Longrightarrow>
     \<exists>k<length xs.
        foldl (scan_spot (Some u) (Some t) (p1 # p2 # rest)) (PInf, None) xs =
          (Fin (f (xs ! k)), Some (xs ! k)) \<and>
        (\<forall>j<length xs. f (xs ! k) \<le> f (xs ! j)) \<and>
        (\<forall>j<k. f (xs ! k) < f (xs ! j))"
proof (induction xs rule: rev_induct)
  case Nil
  then show ?case by simp
next
  case (snoc a xs)
  let ?step = "scan_spot (Some u) (Some t) (p1 # p2 # rest)"
  show ?case
  proof (cases "xs = []")
    case True
    then have "foldl ?step (PInf, None) (xs @ [a]) = (Fin (f a), Some a)"
      by (simp add: scan_spot_fin [OF fin])
    then show ?thesis using True by simp
  next
    case False
    from snoc.IH [OF False] obtain k where k: "k < length xs"
      and acc: "foldl ?step (PInf, None) xs = (Fin (f (xs ! k)), Some (xs ! k))"
      and le: "\<forall>j<length xs. f (xs ! k) \<le> f (xs ! j)"
      and lt: "\<forall>j<k. f (xs ! k) < f (xs ! j)" by blast
    show ?thesis
    proof (cases "f a < f (xs ! k)")
      case True
      have r: "foldl ?step (PInf, None) (xs @ [a]) = (Fin (f a), Some a)"
        using True by (simp add: acc scan_spot_fin [OF fin])
      have "\<forall>j<length (xs @ [a]). f a \<le> f ((xs @ [a]) ! j)"
        using True le by (auto simp: nth_append less_Suc_eq intro: less_imp_le order_trans)
      moreover have "\<forall>j<length xs. f a < f ((xs @ [a]) ! j)"
        using True le by (auto simp: nth_append intro: less_le_trans)
      ultimately show ?thesis
        using r by (intro exI [of _ "length xs"]) simp
    next
      case False
      have r: "foldl ?step (PInf, None) (xs @ [a]) = (Fin (f (xs ! k)), Some (xs ! k))"
        using False by (simp add: acc scan_spot_fin [OF fin])
      have "\<forall>j<length (xs @ [a]). f (xs ! k) \<le> f ((xs @ [a]) ! j)"
        using False le by (auto simp: nth_append less_Suc_eq)
      moreover have "\<forall>j<k. f (xs ! k) < f ((xs @ [a]) ! j)"
        using lt k by (auto simp: nth_append)
      ultimately show ?thesis
        using r k by (intro exI [of _ k]) (simp add: nth_append)
    qed
  qed
qed

lemma unit_scale: "metersPerPixel sample_p1 unit_p2 = Fin 1"
proof -
  have "getDistanceMeters \<lparr>lat = 0, lng = 0\<rparr> \<lparr>lat = 0, lng = 1 / 1000\<rparr> = 6371000 * (1 / 1000 * pi / 180)"
    by (rule getDistanceMeters_equator) simp_all
  then show ?thesis
    by (simp add: metersPerPixel_def sample_p1_def unit_p2_def js_div_def)
qed

lemma pixelDist_sample:
  "pixelDist \<lparr>x = 0, y = 0\<rparr> (sample_spot i a 0) = \<bar>a\<bar>"
  "pixelDist \<lparr>x = 0, y = 0\<rparr> (sample_spot i 0 b) = \<bar>b\<bar>"
  by (simp_all add: pixelDist_def sample_spot_def)

text \<open>
  C7. Nearest-point selection with ties: with a transform and a non-degenerate scale
  \<open>m\<close>, the scan over a non-empty list of spots selects the spot at the least index
  \<open>k\<close> whose distance (pixel distance times \<open>m\<close>) is minimal: no spot is nearer, and
  every earlier spot is strictly farther. With pixel distances 10, 5, 5 and a scale of one
  meter per pixel the second spot is selected.
\<close>

theorem nearest_scan_first_minimum:
  assumes tr: "transform (Some d) \<noteq> None"
    and nz: "cp_pixel_x (calibration_points d ! 0) \<noteq> cp_pixel_x (calibration_points d ! 1) \<or>
             cp_pixel_y (calibration_points d ! 0) \<noteq> cp_pixel_y (calibration_points d ! 1)"
    and ne: "spots d \<noteq> []"
  shows "\<exists>m k. metersPerPixel (calibration_points d ! 0) (calibration_points d ! 1) = Fin m \<and>
          0 \<le> m \<and> k < length (spots d) \<and>
          nearest_scan (Some u) d =
            (Fin (pixelDist u (spots d ! k) * m), Some (spots d ! k)) \<and>
          (\<forall>j<length (spots d). pixelDist u (spots d ! k) * m \<le> pixelDist u (spots d ! j) * m) \<and>
          (\<forall>j<k. pixelDist u (spots d ! k) * m < pixelDist u (spots d ! j) * m)"
proof -
  from tr obtain t where t: "transform (Some d) = Some t" by blast
  then have "3 \<le> length (calibration_points d)"
    by (simp add: transform_def split: if_splits)
  then obtain p1 p2 p3 rest where cps: "calibration_points d = p1 # p2 # p3 # rest"
    by (cases "calibration_points d" rule: getAffineTransform.cases) simp_all
  define dp where "dp = sqrt ((cp_pixel_x p1 - cp_pixel_x p2) ^ 2 + (cp_pixel_y p1 - cp_pixel_y p2) ^ 2)"
  define m where "m = getDistanceMeters \<lparr>lat = cp_lat p1, lng = cp_lng p1\<rparr>
                                         \<lparr>lat = cp_lat p2, lng = cp_lng p2\<rparr> / dp"
  have "(cp_pixel_x p1 - cp_pixel_x p2) ^ 2 + (cp_pixel_y p1 - cp_pixel_y p2) ^ 2 \<noteq> 0"
    using nz by (simp add: cps sum_power2_eq_zero_iff)
  then have dp: "dp \<noteq> 0" and dp0: "0 \<le> dp" by (simp_all add: dp_def)
  have mpp: "metersPerPixel p1 p2 = Fin m"
    using dp by (simp add: metersPerPixel_def Let_def js_div_def m_def dp_def)
  have m0: "0 \<le> m" unfolding m_def using dp0 getDistanceMeters_nonneg by simp
  have fin: "\<And>s. distM u p1 p2 s = Fin (pixelDist u s * m)"
    by (simp add: distM_def mpp js_mul_def)
  from foldl_scan_first_min [where f = "\<lambda>s. pixelDist u s * m", OF fin ne, of t "p3 # rest"]
  obtain k where "k < length (spots d)"
    and "nearest_scan (Some u) d = (Fin (pixelDist u (spots d ! k) * m), Some (spots d ! k))"
    and "\<forall>j<length (spots d). pixelDist u (spots d ! k) * m \<le> pixelDist u (spots d ! j) * m"
    and "\<forall>j<k. pixelDist u (spots d ! k) * m < pixelDist u (spots d ! j) * m"
    unfolding nearest_scan_def t cps by blast
  then show ?thesis using mpp m0 unfolding cps by auto
qed

theorem nearest_scan_first_minimum_witness:
  "transform (Some tie_data) \<noteq> None \<and>
   cp_pixel_x (calibration_points tie_data ! 0) \<noteq> cp_pixel_x (calibration_points tie_data ! 1) \<and>
   spots tie_data \<noteq> [] \<and>
   metersPerPixel sample_p1 unit_p2 = Fin 1 \<and>
   map (pixelDist \<lparr>x = 0, y = 0\<rparr>) (spots tie_data) = [10, 5, 5] \<and>
   nearest_scan (Some \<lparr>x = 0, y = 0\<rparr>) tie_data = (Fin 5, Some (sample_spot ''spot_2'' 0 5))"
proof -
  let ?u = "\<lparr>x = 0, y = 0\<rparr>"
  have h1: "transform (Some tie_data) \<noteq> None"
    by (simp add: transform_def tie_data_def calib_det_def sample_p1_def unit_p2_def sample_p3_def)
  have h2: "cp_pixel_x (calibration_points tie_data ! 0) \<noteq> cp_pixel_x (calibration_points tie_data ! 1)"
    by (simp add: tie_data_def sample_p1_def unit_p2_def)
  have h3: "spots tie_data \<noteq> []" by (simp add: tie_data_def)
  have cp: "calibration_points tie_data ! 0 = sample_p1" "calibration_points tie_data ! 1 = unit_p2"
    by (simp_all add: tie_data_def)
  have ds: "map (pixelDist ?u) (spots tie_data) = [10, 5, 5]"
    by (simp add: tie_data_def pixelDist_sample)
  have d0: "pixelDist ?u (spots tie_data ! 0) = 10"
    and d1: "pixelDist ?u (spots tie_data ! 1) = 5"
    and d2: "pixelDist ?u (spots tie_data ! 2) = 5"
    by (simp_all add: tie_data_def pixelDist_sample)
  have len: "length (spots tie_data) = 3" by (simp add: tie_data_def)
  from nearest_scan_first_minimum [OF h1 disjI1 [OF h2] h3, of ?u] obtain m k
    where m: "metersPerPixel sample_p1 unit_p2 = Fin m"
      and k: "k < 3"
      and r: "nearest_scan (Some ?u) tie_data =
               (Fin (pixelDist ?u (spots tie_data ! k) * m), Some (spots tie_data ! k))"
      and le: "\<forall>j<3. pixelDist ?u (spots tie_data ! k) * m \<le> pixelDist ?u (spots tie_data ! j) * m"
      and lt: "\<forall>j<k. pixelDist ?u (spots tie_data ! k) * m < pixelDist ?u (spots tie_data ! j) * m"
    unfolding cp len by blast
  from m have m1: "m = 1" by (simp add: unit_scale)
  from k consider "k = 0" | "k = 1" | "k = 2" by linarith
  then have "k = 1"
  proof cases
    case 1
    with le have "pixelDist ?u (spots tie_data ! 0) * m \<le> pixelDist ?u (spots tie_data ! 1) * m" by simp
    then show ?thesis unfolding d0 d1 m1 by simp
  next
    case 2
    then show ?thesis .
  next
    case 3
    with lt have "pixelDist ?u (spots tie_data ! 2) * m < pixelDist ?u (spots tie_data ! 1) * m" by simp
    then show ?thesis unfolding d1 d2 m1 by simp
  qed
  have s1: "spots tie_data ! 1 = sample_spot ''spot_2'' 0 5" by (simp add: tie_data_def)
  from r have "nearest_scan (Some ?u) tie_data = (Fin 5, Some (sample_spot ''spot_2'' 0 5))"
    unfolding \<open>k = 1\<close> d1 m1 by (simp add: tie_data_def)
  with h1 h2 h3 ds unit_scale show ?thesis by simp
qed

section \<open>Narration\<close>

lemma proximity_effect_step:
  "snd (proximity_effect (apply_update u st)) =
     (case narration_due u of
        None \<Rightarrow> None
      | Some s \<Rightarrow> if spot_id s \<in> readSpeeches st then None else Some s)"
  "readSpeeches (fst (proximity_effect (apply_update u st))) =
     readSpeeches st \<union>
     (case snd (proximity_effect (apply_update u st)) of None \<Rightarrow> {} | Some s \<Rightarrow> {spot_id s})"
  by (auto simp: proximity_effect_def apply_update_def narration_due_def Let_def
           split: option.splits prod.splits)

lemma proximity_effect_mono: "readSpeeches st \<subseteq> readSpeeches (fst (proximity_effect st))"
  by (auto simp: proximity_effect_def Let_def split: option.splits prod.splits)

lemma apply_update_readSpeeches: "readSpeeches (apply_update u st) = readSpeeches st"
  by (simp add: apply_update_def)

lemma final_state_append: "final_state st (xs @ ys) = final_state (final_state st xs) ys"
  by (induction xs arbitrary: st) simp_all

lemma final_state_mono: "readSpeeches st \<subseteq> readSpeeches (final_state st us)"
proof (induction us arbitrary: st)
  case Nil
  then show ?case by simp
next
  case (Cons u us)
  have "readSpeeches st \<subseteq> readSpeeches (fst (proximity_effect (apply_update u st)))"
    using proximity_effect_mono [of "apply_update u st"] by (simp add: apply_update_readSpeeches)
  also have "\<dots> \<subseteq> readSpeeches (final_state (fst (proximity_effect (apply_update u st))) us)"
    by (rule Cons.IH)
  finally show ?case by simp
qed

lemma final_state_prefix_mono:
  assumes "m \<le> n"
  shows "readSpeeches (final_state st (take m us)) \<subseteq> readSpeeches (final_state st (take n us))"
proof -
  have "take n us = take m us @ take (n - m) (drop m us)"
    using assms by (metis le_add_diff_inverse take_add)
  then show ?thesis by (simp add: final_state_append final_state_mono)
qed

lemma run_session_length: "length (run_session st us) = length us"
  by (induction us arbitrary: st) (simp_all add: split_beta)

lemma run_session_Cons:
  "run_session st (u # us) =
     snd (proximity_effect (apply_update u st)) #
     run_session (fst (proximity_effect (apply_update u st))) us"
  by (simp add: split_beta)

lemma run_session_nth:
  "n < length us \<Longrightarrow>
     run_session st us ! n = Some s \<longleftrightarrow>
       narration_due (us ! n) = Some s \<and> spot_id s \<notin> readSpeeches st \<and>
       (\<forall>m<n. \<forall>s'. narration_due (us ! m) = Some s' \<longrightarrow> spot_id s' \<noteq> spot_id s)"
proof (induction us arbitrary: st n)
  case Nil
  then show ?case by simp
next
  case (Cons u us)
  let ?st' = "fst (proximity_effect (apply_update u st))"
  let ?ev = "snd (proximity_effect (apply_update u st))"
  show ?case
  proof (cases n)
    case 0
    then show ?thesis
      unfolding run_session_Cons
      by (auto simp: proximity_effect_step(1) split: option.splits)
  next
    case (Suc k)
    with Cons.prems have k: "k < length us" by simp
    have rs: "spot_id s \<notin> readSpeeches ?st' \<longleftrightarrow>
        spot_id s \<notin> readSpeeches st \<and>
        (\<forall>s'. narration_due u = Some s' \<longrightarrow> spot_id s' \<noteq> spot_id s)"
      unfolding proximity_effect_step(2) proximity_effect_step(1)
      by (auto split: option.splits)
    show ?thesis
      unfolding Suc run_session_Cons
      by (simp add: Cons.IH [OF k] rs All_less_Suc2)
  qed
qed

text \<open>Evaluation of the sample data.\<close>

lemma sample_scale: "metersPerPixel sample_p1 sample_p2 = Fin (6371 * pi / 9000)"
proof -
  have "getDistanceMeters \<lparr>lat = 0, lng = 0\<rparr> \<lparr>lat = 0, lng = 1 / 1000\<rparr> = 6371000 * (1 / 1000 * pi / 180)"
    by (rule getDistanceMeters_equator) simp_all
  then show ?thesis
    by (simp add: metersPerPixel_def sample_p1_def sample_p2_def js_div_def)
qed

lemma sample_transform: "\<exists>t. getAffineTransform sample_calibration = Some t"
  by (simp add: sample_calibration_def calib_det_def sample_p1_def sample_p2_def sample_p3_def)

lemma sample_transform_data: "\<exists>t. transform (Some (single_spot_data s)) = Some t"
  using sample_transform by (simp add: transform_def single_spot_data_def sample_calibration_def)

lemma nearest_scan_single:
  "nearest_scan (Some u) (single_spot_data s) = (Fin (pixelDist u s * (6371 * pi / 9000)), Some s)"
proof -
  obtain t where t: "transform (Some (single_spot_data s)) = Some t"
    using sample_transform_data by blast
  have d: "distM u sample_p1 sample_p2 s = Fin (pixelDist u s * (6371 * pi / 9000))"
    by (simp add: distM_def sample_scale js_mul_def)
  show ?thesis
    unfolding nearest_scan_def t
    by (simp add: single_spot_data_def sample_calibration_def scan_spot_fin [OF d])
qed

lemma sample_projection:
  "projection_effect (visitor_state s) = (visitor_state s)\<lparr>userPixel := Some \<lparr>x = 0, y = 0\<rparr>\<rparr>"
proof -
  obtain t where t: "getAffineTransform (sample_p1 # sample_p2 # sample_p3 # []) = Some t"
    using sample_transform by (auto simp: sample_calibration_def)
  have tr: "transform (data (visitor_state s)) = Some t"
    using t by (simp add: transform_def visitor_state_def initial_state_def single_spot_data_def
        sample_calibration_def del: getAffineTransform.simps)
  have "latLngToPixel (cp_lat sample_p1) (cp_lng sample_p1) (Some t) =
        Some \<lparr>x = cp_pixel_x sample_p1, y = cp_pixel_y sample_p1\<rparr>"
    by (rule round_trip_three(1) [OF t])
  then have "latLngToPixel 0 0 (Some t) = Some \<lparr>x = 0, y = 0\<rparr>" by (simp add: sample_p1_def)
  then show ?thesis
    by (simp add: projection_effect_def tr) (simp add: visitor_state_def initial_state_def)
qed

lemma sqrt_25: "sqrt 25 = 5"
  using real_sqrt_abs [of 5] by simp

lemma pixelDist_3_4: "pixelDist \<lparr>x = 0, y = 0\<rparr> (sample_spot i 3 4) = 5"
  by (simp add: pixelDist_def sample_spot_def sqrt_25)

lemma near_due: "narration_due near_update = Some (sample_spot ''spot_1'' 3 4)"
proof -
  have "5 * (6371 * pi / 9000) < 20" using pi_less_4 by simp
  then show ?thesis
    by (simp add: narration_due_def near_update_def nearest_scan_single pixelDist_3_4
        AUTO_SPEECH_DISTANCE_def) (simp add: sample_spot_def)
qed

lemma settled_visitor:
  "settled (visitor_state s) =
     (let st1 = (visitor_state s)\<lparr>userPixel := Some \<lparr>x = 0, y = 0\<rparr>,
                 nearestSpotDist := Some (Fin (pixelDist \<lparr>x = 0, y = 0\<rparr> s * (6371 * pi / 9000)))\<rparr>
      in if pixelDist \<lparr>x = 0, y = 0\<rparr> s * (6371 * pi / 9000) < 20 \<and> truthy_str (speech_text s)
         then st1\<lparr>readSpeeches := {spot_id s}\<rparr> else st1)"
  unfolding settled_def sample_projection
  by (simp add: proximity_effect_def nearest_scan_single visitor_state_def initial_state_def
      AUTO_SPEECH_DISTANCE_def Let_def)

text \<open>
  C6. Narration fires once per point of interest and session. Over any sequence of
  updates, each followed by a run of the proximity effect: the set of narrated ids only
  grows; the effect narrates a spot at an update exactly when that update makes the spot
  due (it is the nearest one, nearer than 20 meters, with a narration text), its id was not
  narrated before the session and no earlier update made a spot of that id due; hence no
  two narrations of one session have the same id.
\<close>

theorem narration_once_per_spot:
  "length (run_session st us) = length us \<and>
   (\<forall>m n. m \<le> n \<longrightarrow>
      readSpeeches (final_state st (take m us)) \<subseteq> readSpeeches (final_state st (take n us))) \<and>
   (\<forall>n<length us. \<forall>s.
      run_session st us ! n = Some s \<longleftrightarrow>
        narration_due (us ! n) = Some s \<and> spot_id s \<notin> readSpeeches st \<and>
        (\<forall>m<n. \<forall>s'. narration_due (us ! m) = Some s' \<longrightarrow> spot_id s' \<noteq> spot_id s)) \<and>
   (\<forall>i j s s'. i < j \<and> j < length us \<and>
      run_session st us ! i = Some s \<and> run_session st us ! j = Some s' \<longrightarrow>
      spot_id s \<noteq> spot_id s')"
proof -
  have once: "spot_id s \<noteq> spot_id s'"
    if "i < j" "j < length us" "run_session st us ! i = Some s" "run_session st us ! j = Some s'"
    for i j s s'
  proof -
    from that have "i < length us" by simp
    with that(3) have "narration_due (us ! i) = Some s" by (simp add: run_session_nth)
    moreover from that(2,4)
    have "\<forall>m<j. \<forall>t. narration_due (us ! m) = Some t \<longrightarrow> spot_id t \<noteq> spot_id s'"
      by (simp add: run_session_nth)
    ultimately show ?thesis using that(1) by blast
  qed
  have a: "length (run_session st us) = length us" by (rule run_session_length)
  have b: "\<forall>m n. m \<le> n \<longrightarrow>
      readSpeeches (final_state st (take m us)) \<subseteq> readSpeeches (final_state st (take n us))"
    using final_state_prefix_mono by blast
  have c: "\<forall>n<length us. \<forall>s.
      run_session st us ! n = Some s \<longleftrightarrow>
        narration_due (us ! n) = Some s \<and> spot_id s \<notin> readSpeeches st \<and>
        (\<forall>m<n. \<forall>s'. narration_due (us ! m) = Some s' \<longrightarrow> spot_id s' \<noteq> spot_id s)"
    using run_session_nth by blast
  have d: "\<forall>i j s s'. i < j \<and> j < length us \<and>
      run_session st us ! i = Some s \<and> run_session st us ! j = Some s' \<longrightarrow>
      spot_id s \<noteq> spot_id s'"
    using once by blast
  from a b c d show ?thesis by (intro conjI)
qed

theorem narration_once_per_spot_witness:
  "narration_due near_update = Some (sample_spot ''spot_1'' 3 4) \<and>
   run_session initial_state [near_update, near_update] = [Some (sample_spot ''spot_1'' 3 4), None] \<and>
   readSpeeches initial_state \<subseteq> readSpeeches (final_state initial_state [near_update, near_update])"
proof -
  let ?us = "[near_update, near_update]"
  let ?s = "sample_spot ''spot_1'' 3 4"
  note T = narration_once_per_spot [of initial_state ?us]
  from T have len: "length (run_session initial_state ?us) = 2" by simp
  from T have nth: "\<And>n s. n < 2 \<Longrightarrow> run_session initial_state ?us ! n = Some s \<longleftrightarrow>
        narration_due (?us ! n) = Some s \<and> spot_id s \<notin> readSpeeches initial_state \<and>
        (\<forall>m<n. \<forall>s'. narration_due (?us ! m) = Some s' \<longrightarrow> spot_id s' \<noteq> spot_id s)"
    by simp
  from T have "\<forall>m n. m \<le> n \<longrightarrow>
      readSpeeches (final_state initial_state (take m ?us)) \<subseteq>
      readSpeeches (final_state initial_state (take n ?us))" by blast
  then have "readSpeeches (final_state initial_state (take 0 ?us)) \<subseteq>
      readSpeeches (final_state initial_state (take 2 ?us))" by blast
  then have mono: "readSpeeches initial_state \<subseteq> readSpeeches (final_state initial_state ?us)"
    by simp
  have e0: "run_session initial_state ?us ! 0 = Some ?s"
    using nth [of 0 ?s] by (simp add: near_due initial_state_def)
  have "run_session initial_state ?us ! 1 \<noteq> Some s" for s
    using nth [of 1 s] by (auto simp: near_due)
  then have e1: "run_session initial_state ?us ! 1 = None" by (cases "run_session initial_state ?us ! 1") auto
  obtain a b where ab: "run_session initial_state ?us = [a, b]"
    using len by (metis (no_types) length_0_conv length_Suc_conv numeral_2_eq_2)
  with e0 e1 have "run_session initial_state ?us = [Some ?s, None]" by simp
  with near_due mono show ?thesis by simp
qed

section \<open>Check-in wiring\<close>

text \<open>
  C10. When the nearest-spot distance is exactly 0, the wiring takes it for "no distance":
  the detail view receives null as the distance, and the spot is not eligible for
  check-in although 0 is less than 30.
\<close>

theorem zero_distance_not_eligible:
  "nearestSpotDist st = Some (Fin 0) \<Longrightarrow> userDistance st = None \<and> \<not> isNear (userDistance st)"
  by (simp add: userDistance_def isNear_def split: option.splits)

theorem zero_distance_not_eligible_witness:
  "has_mission (sample_spot ''spot_1'' 0 0) \<and>
   selectedSpot (settled (visitor_state (sample_spot ''spot_1'' 0 0))) = Some (sample_spot ''spot_1'' 0 0) \<and>
   userPixel (settled (visitor_state (sample_spot ''spot_1'' 0 0))) = Some \<lparr>x = 0, y = 0\<rparr> \<and>
   nearestSpotDist (settled (visitor_state (sample_spot ''spot_1'' 0 0))) = Some (Fin 0) \<and>
   userDistance (settled (visitor_state (sample_spot ''spot_1'' 0 0))) = None \<and>
   \<not> isNear (userDistance (settled (visitor_state (sample_spot ''spot_1'' 0 0))))"
proof -
  let ?st = "settled (visitor_state (sample_spot ''spot_1'' 0 0))"
  have n: "nearestSpotDist ?st = Some (Fin 0)"
    by (simp add: settled_visitor pixelDist_sample Let_def)
  have "selectedSpot ?st = selectedSpot (visitor_state (sample_spot ''spot_1'' 0 0))"
    by (simp add: settled_visitor pixelDist_sample Let_def)
  then have s: "selectedSpot ?st = Some (sample_spot ''spot_1'' 0 0)"
    by (simp add: visitor_state_def)
  have p: "userPixel ?st = Some \<lparr>x = 0, y = 0\<rparr>"
    by (simp add: settled_visitor pixelDist_sample Let_def)
  have m: "has_mission (sample_spot ''spot_1'' 0 0)" by (simp add: sample_spot_def)
  from zero_distance_not_eligible [OF n] n s p m show ?thesis by blast
qed

text \<open>
  C3. Check-in eligibility is said to compare the distance in meters (pixel distance times
  scale, as in the proximity evaluation) with 30. The detail view receives the pixel
  distance itself. With the sample calibration (about 2.22 meters per pixel) and a mission
  spot 25 pixels from the visitor, the proximity evaluation computes more than 30 meters
  (about 55.6), and the spot is eligible all the same, since 25 is less than 30.
\<close>

theorem checkin_compares_pixel_distance:
  "has_mission (sample_spot ''spot_1'' 25 0) \<and>
   nearestSpotDist (settled (visitor_state (sample_spot ''spot_1'' 25 0))) =
     Some (distM \<lparr>x = 0, y = 0\<rparr> sample_p1 sample_p2 (sample_spot ''spot_1'' 25 0)) \<and>
   distM \<lparr>x = 0, y = 0\<rparr> sample_p1 sample_p2 (sample_spot ''spot_1'' 25 0) =
     Fin (25 * (6371 * pi / 9000)) \<and>
   30 < 25 * (6371 * pi / 9000) \<and>
   userDistance (settled (visitor_state (sample_spot ''spot_1'' 25 0))) = Some 25 \<and>
   isNear (userDistance (settled (visitor_state (sample_spot ''spot_1'' 25 0))))"
proof -
  let ?s = "sample_spot ''spot_1'' 25 0"
  let ?st = "settled (visitor_state ?s)"
  have far: "30 < 25 * (6371 * pi / 9000)" using pi_ge_two by simp
  then have nl: "\<not> 25 * (6371 * pi / 9000) < 20" by simp
  have d: "distM \<lparr>x = 0, y = 0\<rparr> sample_p1 sample_p2 ?s = Fin (25 * (6371 * pi / 9000))"
    by (simp add: distM_def sample_scale js_mul_def pixelDist_sample)
  have st: "?st = (visitor_state ?s)\<lparr>userPixel := Some \<lparr>x = 0, y = 0\<rparr>,
                 nearestSpotDist := Some (Fin (25 * (6371 * pi / 9000)))\<rparr>"
    using nl by (simp add: settled_visitor pixelDist_sample Let_def)
  have n: "nearestSpotDist ?st = Some (Fin (25 * (6371 * pi / 9000)))" unfolding st by simp
  have nz: "25 * (6371 * pi / 9000) \<noteq> 0" using far by simp
  have u: "userDistance ?st = Some 25"
    unfolding st using nz
    by (simp add: userDistance_def visitor_state_def initial_state_def sample_spot_def)
  have m: "has_mission ?s" by (simp add: sample_spot_def)
  from m n d far u show ?thesis by (simp add: isNear_def)
qed

end
